theory Spec2Isabelle
  imports Complex_Main "HOL-Library.Sublist"
begin

section \<open>Data model of app/visualize.py\<close>

text \<open>
  Dates are proleptic Gregorian ordinals (\<open>date.toordinal()\<close>), so that
  \<open>d - timedelta(days=k)\<close> is integer subtraction and date comparison is \<open>\<le>\<close>, \<open><\<close>.
  Python's \<open>int\<close> is unbounded: \<open>int\<close>.
\<close>

type_synonym date = int

text \<open>The exceptions the module can raise or let escape.\<close>

datatype py_error =
    HTTPException nat string
  | FileNotFoundError
  | PermissionError
  | JSONDecodeError
  | KeyError string
  | ZeroDivisionError
  | ValueError
  | OverflowError

text \<open>A row of the \<open>Member\<close> table, with the two columns the module reads.\<close>

record Member =
  date_of_exit :: date
  exit_destination :: string

text \<open>A row of the data frame built by \<open>_exit_df\<close>: columns \<open>date\<close> and \<open>dest\<close>.\<close>

record exit_row =
  row_date :: date
  row_dest :: string

text \<open>
  The data frame \<open>moving\<close>: one row per bucket, indexed by the bucket's end date;
  a row holds the cells it has a value for, by column name (a missing cell is NaN).
\<close>

type_synonym moving_frame = "(date \<times> (string \<times> rat) list) list"

text \<open>
  The libraries the module calls and does not define: Plotly Express (a figure
  serialised by \<open>fig.to_json()\<close>, or an exception) and the \<open>json\<close> codec
  (\<open>json.loads\<close> gives \<open>None\<close> for a JSONDecodeError).
\<close>

record 'fig libs =
  px_line :: "moving_frame \<Rightarrow> string \<Rightarrow> string list \<Rightarrow> py_error + string"
  px_pie :: "(exit_row \<times> int) list \<Rightarrow> (string \<times> string) list \<Rightarrow> py_error + string"
  json_loads :: "string \<Rightarrow> 'fig option"
  json_dumps :: "'fig \<Rightarrow> string"

text \<open>
  A file of the file system: its content, and whether the process may read it.
  The file system: whether the cache directory exists, and the files by path.
  The cache directory is taken to hold regular files only, as the module creates them,
  so that its entries are the paths \<open>PLOT_CACHE_DIR/name\<close>.
\<close>

record cache_file =
  readable :: bool
  content :: string

record filesys =
  dir_exists :: bool
  files :: "string \<rightharpoonup> cache_file"

text \<open>A task handed to \<open>BackgroundTasks.add_task\<close>: a deferred call of \<open>_update_cache\<close>.\<close>

datatype 'fig task = Update_cache 'fig string int

text \<open>The calls a route makes to the cache, the plotting functions and the task queue, in order.\<close>

datatype call =
    Open_cache string
  | Plot_moving_avg int int
  | Plot_exit_pie int
  | Add_task string

record 'fig response =
  result :: "py_error + 'fig"
  tasks :: "'fig task list"
  calls :: "call list"

section \<open>Python primitives\<close>

text \<open>\<open>str(n)\<close> for an integer: decimal digits, a leading \<open>-\<close> when negative.\<close>

definition digit_char :: "nat \<Rightarrow> char" where
  "digit_char n = ''0123456789'' ! n"

function str_nat :: "nat \<Rightarrow> string" where
  "str_nat n = (if n < 10 then [digit_char n] else str_nat (n div 10) @ [digit_char (n mod 10)])"
  by pat_completeness auto
termination
  by (relation "measure id") auto

declare str_nat.simps [simp del]

definition str_int :: "int \<Rightarrow> string" where
  "str_int i = (if i < 0 then CHR ''-'' # str_nat (nat (- i)) else str_nat (nat i))"

text \<open>\<open>sub in s\<close> for strings: \<open>sub\<close> occurs in \<open>s\<close> as a contiguous substring.\<close>

fun str_in :: "string \<Rightarrow> string \<Rightarrow> bool" where
  "str_in sub [] = (sub = [])"
| "str_in sub (c # cs) = (prefix sub (c # cs) \<or> str_in sub cs)"

text \<open>\<open>range(i, stop, step)\<close> as a list; \<open>step = 0\<close> raises ValueError in Python and is
  excluded by the caller.\<close>

function range_py :: "int \<Rightarrow> int \<Rightarrow> int \<Rightarrow> int list" where
  "range_py i stop step =
     (if 0 < step \<and> i < stop then i # range_py (i + step) stop step
      else if step < 0 \<and> stop < i then i # range_py (i + step) stop step
      else [])"
  by pat_completeness auto
termination
  by (relation "measure (\<lambda>(i, stop, step). nat (if 0 < step then stop - i else i - stop))") auto

declare range_py.simps [simp del]

text \<open>\<open>a / b\<close> on Python ints: true division, ZeroDivisionError when \<open>b = 0\<close>. The quotient
  is kept exact.\<close>

definition truediv :: "int \<Rightarrow> int \<Rightarrow> py_error + rat" where
  "truediv a b = (if b = 0 then Inl ZeroDivisionError else Inr (of_int a / of_int b))"

text \<open>\<open>Series.unique()\<close>: the distinct values in order of first appearance.\<close>

definition unique :: "'a list \<Rightarrow> 'a list" where
  "unique xs = rev (remdups (rev xs))"

text \<open>\<open>date.timetuple().tm_yday\<close>, as CPython's \<open>_ord2ymd\<close> computes the day of the year
  from the ordinal.\<close>

definition tm_yday :: "date \<Rightarrow> int" where
  "tm_yday d =
     (let n0 = d - 1;
          n = n0 mod 146097;
          n100 = n div 36524;
          n = n mod 36524;
          n = n mod 1461;
          n1 = n div 365;
          n = n mod 365
      in if n1 = 4 \<or> n100 = 4 then 366 else n + 1)"

text \<open>
  \<open>timedelta(days=n)\<close> raises OverflowError beyond 999999999 days in magnitude, and
  \<open>d - timedelta(days=n)\<close> raises it when the result leaves the ordinals of
  \<open>date.min\<close> to \<open>date.max\<close>, 1 to 3652059.
\<close>

definition MAXORDINAL :: int where
  "MAXORDINAL = 3652059"

definition timedelta :: "int \<Rightarrow> py_error + int" where
  "timedelta days = (if 999999999 < \<bar>days\<bar> then Inl OverflowError else Inr days)"

definition date_minus :: "date \<Rightarrow> int \<Rightarrow> py_error + date" where
  "date_minus d n =
     (case timedelta n of
        Inl e \<Rightarrow> Inl e
      | Inr k \<Rightarrow> if 0 < d - k \<and> d - k \<le> MAXORDINAL then Inr (d - k) else Inl OverflowError)"

section \<open>The module\<close>

definition PLOT_CACHE_DIR :: string where
  "PLOT_CACHE_DIR = ''app/plotcache''"

text \<open>\<open>os.path.join(PLOT_CACHE_DIR, name)\<close> and the entry name of a path of the directory.\<close>

definition path_join :: "string \<Rightarrow> string \<Rightarrow> string" where
  "path_join dir name = dir @ ''/'' @ name"

definition entry_name :: "string \<Rightarrow> string option" where
  "entry_name path =
     (if prefix (PLOT_CACHE_DIR @ ''/'') path
      then Some (drop (length (PLOT_CACHE_DIR @ ''/'')) path) else None)"

text \<open>\<open>_check_m\<close>\<close>

definition check_m :: "int \<Rightarrow> py_error + unit" where
  "check_m m =
     (if \<not> (m = 90 \<or> m = 365)
      then Inl (HTTPException 404 ''Not found. Try m=90 or m=365'')
      else Inr ())"

text \<open>\<open>_exit_df\<close>: the query, then the loop appending one row per member found.\<close>

definition query_exits :: "Member list \<Rightarrow> date \<Rightarrow> date \<Rightarrow> Member list" where
  "query_exits session first last' =
     filter (\<lambda>ex. first < date_of_exit ex \<and> date_of_exit ex \<le> last') session"

definition to_row :: "Member \<Rightarrow> exit_row" where
  "to_row ex = \<lparr>row_date = date_of_exit ex, row_dest = exit_destination ex\<rparr>"

fun append_rows :: "exit_row list \<Rightarrow> Member list \<Rightarrow> exit_row list" where
  "append_rows df [] = df"
| "append_rows df (ex # exits) = append_rows (df @ [to_row ex]) exits"

definition exit_df :: "Member list \<Rightarrow> date \<Rightarrow> date \<Rightarrow> exit_row list" where
  "exit_df session first last' = append_rows [] (query_exits session first last')"

text \<open>\<open>plot_moving_avg\<close>, lines 73 to 93: the frame \<open>moving\<close>.\<close>

definition STEP :: "int \<Rightarrow> int" where
  "STEP days_back = (if days_back div 90 = 0 then 1 else days_back div 90)"

definition subset_rows :: "exit_row list \<Rightarrow> date \<Rightarrow> date \<Rightarrow> exit_row list" where
  "subset_rows df start end' = filter (\<lambda>r. start < row_date r \<and> row_date r \<le> end') df"

text \<open>The dict comprehension of line 91, evaluated destination by destination.\<close>

fun breakdown :: "exit_row list \<Rightarrow> string list \<Rightarrow> py_error + (string \<times> rat) list" where
  "breakdown sub [] = Inr []"
| "breakdown sub (dest # dests) =
     (case truediv (int (length (filter (\<lambda>r. row_dest r = dest) sub))) (int (length sub)) of
        Inl e \<Rightarrow> Inl e
      | Inr q \<Rightarrow>
         (case breakdown sub dests of
            Inl e \<Rightarrow> Inl e
          | Inr rest \<Rightarrow> Inr ((dest, q) # rest)))"

text \<open>The loop of lines 83 to 92 over the offsets \<open>i\<close>.\<close>

fun moving_loop ::
  "exit_row list \<Rightarrow> string list \<Rightarrow> date \<Rightarrow> int \<Rightarrow> moving_frame \<Rightarrow> int list \<Rightarrow> py_error + moving_frame"
where
  "moving_loop df dests last' m moving [] = Inr moving"
| "moving_loop df dests last' m moving (i # is) =
     (case date_minus last' i of
        Inl e \<Rightarrow> Inl e
      | Inr end' \<Rightarrow>
         (case date_minus end' m of
            Inl e \<Rightarrow> Inl e
          | Inr start \<Rightarrow>
             (case breakdown (subset_rows df start end') dests of
                Inl e \<Rightarrow> Inl e
              | Inr b \<Rightarrow> moving_loop df dests last' m (moving @ [(end', b)]) is)))"

text \<open>\<open>DataFrame.fillna(0)\<close>: every row gets every column of the frame, a missing cell
  becoming 0.\<close>

definition columns :: "moving_frame \<Rightarrow> string list" where
  "columns moving = unique (concat (map (\<lambda>(e, b). map fst b) moving))"

definition fillna0 :: "moving_frame \<Rightarrow> moving_frame" where
  "fillna0 moving =
     map (\<lambda>(e, b). (e, map (\<lambda>c. (c, case map_of b c of None \<Rightarrow> 0 | Some v \<Rightarrow> v)) (columns moving)))
       moving"

definition compute_moving :: "Member list \<Rightarrow> date \<Rightarrow> int \<Rightarrow> int \<Rightarrow> py_error + moving_frame" where
  "compute_moving session today m days_back =
     (case date_minus today 180 of
        Inl e \<Rightarrow> Inl e
      | Inr last' \<Rightarrow>
         (case date_minus last' (m + days_back) of
            Inl e \<Rightarrow> Inl e
          | Inr first \<Rightarrow>
             (let df = exit_df session first last'
              in if df = [] then Inl (KeyError ''dest'')
                 else
                   let dests = unique (map row_dest df)
                   in if STEP days_back = 0 then Inl ValueError
                      else
                        (case moving_loop df dests last' m []
                                (range_py 0 days_back (STEP days_back)) of
                           Inl e \<Rightarrow> Inl e
                         | Inr moving \<Rightarrow> Inr (fillna0 moving)))))"

definition category_orders :: "string list" where
  "category_orders =
     [''Permanent Exit'', ''Temporary Exit'', ''Transitional Housing'',
      ''Emergency Shelter'', ''Unknown/Other'']"

definition plot_moving_avg ::
  "'fig libs \<Rightarrow> Member list \<Rightarrow> date \<Rightarrow> int \<Rightarrow> int \<Rightarrow> py_error + string"
where
  "plot_moving_avg L session today m days_back =
     (case compute_moving session today m days_back of
        Inl e \<Rightarrow> Inl e
      | Inr moving \<Rightarrow> px_line L moving (str_int m @ ''-Day Moving Averages'') category_orders)"

text \<open>\<open>plot_exit_pie\<close>\<close>

definition color_discrete_map :: "(string \<times> string) list" where
  "color_discrete_map =
     [(''Permanent Exit'', ''#636EFA''), (''Temporary Exit'', ''#EF553B''),
      (''Transitional Housing'', ''#00CC96''), (''Emergency Shelter'', ''#AB63FA''),
      (''Unknown/Other'', ''#FFA15A'')]"

definition plot_exit_pie :: "'fig libs \<Rightarrow> Member list \<Rightarrow> date \<Rightarrow> int \<Rightarrow> py_error + string" where
  "plot_exit_pie L session today m =
     (case date_minus today 180 of
        Inl e \<Rightarrow> Inl e
      | Inr last' \<Rightarrow>
         (case date_minus last' m of
            Inl e \<Rightarrow> Inl e
          | Inr first \<Rightarrow>
             (let df = exit_df session first last'
              in px_pie L (map (\<lambda>r. (r, 1)) df) color_discrete_map)))"

text \<open>\<open>open(path)\<close> for reading, and \<open>_update_cache\<close>: the write, then the sweep of the
  directory.\<close>

definition open_read :: "filesys \<Rightarrow> string \<Rightarrow> py_error + string" where
  "open_read fs path =
     (if \<not> dir_exists fs then Inl FileNotFoundError
      else case files fs path of
             None \<Rightarrow> Inl FileNotFoundError
           | Some f \<Rightarrow> if readable f then Inr (content f) else Inl PermissionError)"

definition write_file :: "filesys \<Rightarrow> string \<Rightarrow> string \<Rightarrow> py_error + filesys" where
  "write_file fs path s =
     (if \<not> dir_exists fs then Inl FileNotFoundError
      else Inr (fs\<lparr>files := (files fs)(path \<mapsto>
             (case files fs path of
                None \<Rightarrow> \<lparr>readable = True, content = s\<rparr>
              | Some f \<Rightarrow> f\<lparr>content := s\<rparr>))\<rparr>))"

definition sweep :: "filesys \<Rightarrow> int \<Rightarrow> filesys" where
  "sweep fs DoY =
     fs\<lparr>files := (\<lambda>path.
        case entry_name path of
          None \<Rightarrow> files fs path
        | Some name \<Rightarrow>
            if \<not> str_in (''d'' @ str_int DoY) name then None else files fs path)\<rparr>"

definition update_cache :: "'fig libs \<Rightarrow> filesys \<Rightarrow> 'fig \<Rightarrow> string \<Rightarrow> int \<Rightarrow> py_error + filesys" where
  "update_cache L fs fig cache_path DoY =
     (case write_file fs cache_path (json_dumps L fig) of
        Inl e \<Rightarrow> Inl e
      | Inr fs' \<Rightarrow> Inr (sweep fs' DoY))"

fun run_task :: "'fig libs \<Rightarrow> filesys \<Rightarrow> 'fig task \<Rightarrow> py_error + filesys" where
  "run_task L fs (Update_cache fig cache_path DoY) = update_cache L fs fig cache_path DoY"

text \<open>The routes. \<open>cached\<close> is the body the two share: try the cache file, and on
  FileNotFoundError plot, parse and queue the cache update. The plot is passed
  unevaluated: it is looked at in the \<open>except\<close> branch only.\<close>

definition MA_cache_path :: "int \<Rightarrow> int \<Rightarrow> int \<Rightarrow> string" where
  "MA_cache_path m days_back DoY =
     path_join PLOT_CACHE_DIR
       (''MA'' @ str_int m @ ''-'' @ str_int days_back @ ''-d'' @ str_int DoY @ ''.json'')"

definition PIE_cache_path :: "int \<Rightarrow> int \<Rightarrow> string" where
  "PIE_cache_path m DoY =
     path_join PLOT_CACHE_DIR (''PIE'' @ str_int m @ ''-d'' @ str_int DoY @ ''.json'')"

text \<open>\<open>json.loads(plot_...(...))\<close>: an exception of the plot escapes, else the document
  is parsed.\<close>

definition loads_plot :: "'fig libs \<Rightarrow> (py_error + string) \<Rightarrow> py_error + 'fig" where
  "loads_plot L plotted =
     (case plotted of
        Inl e \<Rightarrow> Inl e
      | Inr s \<Rightarrow> (case json_loads L s of None \<Rightarrow> Inl JSONDecodeError | Some fig \<Rightarrow> Inr fig))"

definition cached ::
  "'fig libs \<Rightarrow> filesys \<Rightarrow> string \<Rightarrow> int \<Rightarrow> call \<Rightarrow> (py_error + string) \<Rightarrow> 'fig response"
where
  "cached L fs cache_path DoY plot_call plotted =
     (case open_read fs cache_path of
        Inr s \<Rightarrow>
          (case json_loads L s of
             None \<Rightarrow> \<lparr>result = Inl JSONDecodeError, tasks = [], calls = [Open_cache cache_path]\<rparr>
           | Some fig \<Rightarrow> \<lparr>result = Inr fig, tasks = [], calls = [Open_cache cache_path]\<rparr>)
      | Inl FileNotFoundError \<Rightarrow>
          (case loads_plot L plotted of
             Inl e \<Rightarrow> \<lparr>result = Inl e, tasks = [], calls = [Open_cache cache_path, plot_call]\<rparr>
           | Inr fig \<Rightarrow>
               \<lparr>result = Inr fig, tasks = [Update_cache fig cache_path DoY],
                calls = [Open_cache cache_path, plot_call, Add_task cache_path]\<rparr>)
      | Inl e \<Rightarrow> \<lparr>result = Inl e, tasks = [], calls = [Open_cache cache_path]\<rparr>)"

definition moving_avg ::
  "'fig libs \<Rightarrow> Member list \<Rightarrow> filesys \<Rightarrow> date \<Rightarrow> int \<Rightarrow> int \<Rightarrow> 'fig response"
where
  "moving_avg L session fs today m days_back =
     (case check_m m of
        Inl e \<Rightarrow> \<lparr>result = Inl e, tasks = [], calls = []\<rparr>
      | Inr _ \<Rightarrow>
          let DoY = tm_yday today;
              cache_path = MA_cache_path m days_back DoY
          in cached L fs cache_path DoY (Plot_moving_avg m days_back)
               (plot_moving_avg L session today m days_back))"

definition exit_pie :: "'fig libs \<Rightarrow> Member list \<Rightarrow> filesys \<Rightarrow> date \<Rightarrow> int \<Rightarrow> 'fig response" where
  "exit_pie L session fs today m =
     (case check_m m of
        Inl e \<Rightarrow> \<lparr>result = Inl e, tasks = [], calls = []\<rparr>
      | Inr _ \<Rightarrow>
          let DoY = tm_yday today;
              cache_path = PIE_cache_path m DoY
          in cached L fs cache_path DoY (Plot_exit_pie m) (plot_exit_pie L session today m))"

section \<open>Notions for stating the properties\<close>

text \<open>The rows of the bucket of offset \<open>i\<close>, the offsets the loop runs over, and the
  proportion of each destination among the rows of a bucket.\<close>

definition bucket :: "exit_row list \<Rightarrow> date \<Rightarrow> int \<Rightarrow> int \<Rightarrow> exit_row list" where
  "bucket df last' m i = subset_rows df (last' - i - m) (last' - i)"

definition offsets :: "int \<Rightarrow> int list" where
  "offsets days_back = range_py 0 days_back (STEP days_back)"

definition proportions :: "exit_row list \<Rightarrow> string list \<Rightarrow> (string \<times> rat) list" where
  "proportions sub dests =
     map (\<lambda>dest. (dest, of_int (int (length (filter (\<lambda>r. row_dest r = dest) sub)))
                          / of_int (int (length sub)))) dests"

text \<open>The queued tasks run in order once the response is sent; a task that raises ends
  the run.\<close>

fun run_tasks :: "'fig libs \<Rightarrow> filesys \<Rightarrow> 'fig task list \<Rightarrow> py_error + filesys" where
  "run_tasks L fs [] = Inr fs"
| "run_tasks L fs (t # ts) =
     (case run_task L fs t of Inl e \<Rightarrow> Inl e | Inr fs' \<Rightarrow> run_tasks L fs' ts)"

section \<open>Sample inputs\<close>

text \<open>An instance of the libraries for running the model: figures are their documents,
  a document parses when it opens with a brace; the pie refuses a frame without rows, which
  has no column \<open>dest\<close>.\<close>

definition sample_libs :: "string libs" where
  "sample_libs =
     \<lparr>px_line = (\<lambda>moving title order. Inr (''{line: '' @ title @ ''}'')),
      px_pie = (\<lambda>df colors. if df = [] then Inl ValueError else Inr ''{pie}''),
      json_loads = (\<lambda>s. if prefix ''{'' s then Some s else None),
      json_dumps = (\<lambda>fig. fig)\<rparr>"

text \<open>A second instance, whose line plot shows the number of rows of the frame and the
  end date of its last row.\<close>

definition counting_libs :: "string libs" where
  "counting_libs =
     sample_libs\<lparr>px_line := (\<lambda>moving title order.
        Inr (''{line: '' @ title @ '', rows: '' @ str_int (int (length moving))
             @ '', last: ''
             @ (if moving = [] then ''none'' else str_int (fst (last moving)))
             @ ''}''))\<rparr>"

definition member :: "date \<Rightarrow> string \<Rightarrow> Member" where
  "member d dest = \<lparr>date_of_exit = d, exit_destination = dest\<rparr>"

definition empty_fs :: filesys where
  "empty_fs = \<lparr>dir_exists = True, files = Map.empty\<rparr>"

definition fs_with :: "string \<Rightarrow> cache_file \<Rightarrow> filesys" where
  "fs_with path f = \<lparr>dir_exists = True, files = [path \<mapsto> f]\<rparr>"

section \<open>Parameter validation\<close>

lemma check_m_invalid:
  "m \<noteq> 90 \<Longrightarrow> m \<noteq> 365 \<Longrightarrow>
     check_m m = Inl (HTTPException 404 ''Not found. Try m=90 or m=365'')"
  by (simp add: check_m_def)

lemma check_m_valid: "m = 90 \<or> m = 365 \<Longrightarrow> check_m m = Inr ()"
  by (auto simp: check_m_def)

text \<open>
  C5. For every integer \<open>m\<close> other than 90 and 365, both routes fail with the 404
  HTTPException carrying "Not found. Try m=90 or m=365", whatever the record source, the
  file system and the libraries are, having made no call to the cache or to a plotting
  function and queued no task.
\<close>

theorem invalid_m_rejected_first:
  assumes "m \<noteq> 90" and "m \<noteq> 365"
  shows "moving_avg L session fs today m days_back =
           \<lparr>result = Inl (HTTPException 404 ''Not found. Try m=90 or m=365''),
            tasks = [], calls = []\<rparr>
       \<and> exit_pie L session fs today m =
           \<lparr>result = Inl (HTTPException 404 ''Not found. Try m=90 or m=365''),
            tasks = [], calls = []\<rparr>"
  using assms by (simp add: moving_avg_def exit_pie_def check_m_invalid)

theorem invalid_m_rejected_first_witness:
  "(91::int) \<noteq> 90 \<and> (91::int) \<noteq> 365
   \<and> moving_avg sample_libs [member 1000 ''Permanent Exit''] empty_fs 1180 91 30 =
           \<lparr>result = Inl (HTTPException 404 ''Not found. Try m=90 or m=365''),
            tasks = [], calls = []\<rparr>
   \<and> exit_pie sample_libs [member 1000 ''Permanent Exit''] empty_fs 1180 91 =
           \<lparr>result = Inl (HTTPException 404 ''Not found. Try m=90 or m=365''),
            tasks = [], calls = []\<rparr>"
  using invalid_m_rejected_first
    [of 91 sample_libs "[member 1000 ''Permanent Exit'']" empty_fs 1180 30]
  by simp

section \<open>The record source\<close>

lemma append_rows_map: "append_rows df exits = df @ map to_row exits"
  by (induction exits arbitrary: df) simp_all

lemma exit_df_eq:
  "exit_df session first last' =
     map to_row (filter (\<lambda>ex. first < date_of_exit ex \<and> date_of_exit ex \<le> last') session)"
  by (simp add: exit_df_def query_exits_def append_rows_map)

text \<open>
  C7. The frame returned by \<open>_exit_df\<close> holds exactly the stored records with
  \<open>first < date_of_exit \<le> last\<close>, one row each and in the order of the table: every
  row satisfies the bound, and every stored record satisfying the bound has its row.
\<close>

theorem fetch_exact:
  "exit_df session first last' =
     map to_row (filter (\<lambda>ex. first < date_of_exit ex \<and> date_of_exit ex \<le> last') session)
   \<and> (\<forall>r \<in> set (exit_df session first last'). first < row_date r \<and> row_date r \<le> last')
   \<and> (\<forall>ex \<in> set session. first < date_of_exit ex \<and> date_of_exit ex \<le> last'
         \<longrightarrow> to_row ex \<in> set (exit_df session first last'))"
  by (auto simp: exit_df_eq to_row_def)

theorem fetch_exact_witness:
  "exit_df [member 10 ''Permanent Exit'', member 11 ''Temporary Exit'',
            member 20 ''Unknown/Other'', member 21 ''Permanent Exit''] 10 20
     = [\<lparr>row_date = 11, row_dest = ''Temporary Exit''\<rparr>,
        \<lparr>row_date = 20, row_dest = ''Unknown/Other''\<rparr>]
   \<and> to_row (member 20 ''Unknown/Other'')
       \<in> set (exit_df [member 10 ''Permanent Exit'', member 11 ''Temporary Exit'',
                       member 20 ''Unknown/Other'', member 21 ''Permanent Exit''] 10 20)"
  using fetch_exact [of "[member 10 ''Permanent Exit'', member 11 ''Temporary Exit'',
     member 20 ''Unknown/Other'', member 21 ''Permanent Exit'']" 10 20]
  by (simp add: member_def to_row_def)

section \<open>The cache: writing and sweeping\<close>

lemma str_in_prefix: "prefix sub s \<Longrightarrow> str_in sub s"
  by (cases s) simp_all

lemma str_in_append: "str_in sub (pre @ sub @ post)"
  by (induction pre) (simp_all add: str_in_prefix)

lemma entry_name_join: "entry_name (path_join PLOT_CACHE_DIR name) = Some name"
  by (simp add: entry_name_def path_join_def)

lemma MA_name_tagged:
  "\<exists>name. MA_cache_path m days_back DoY = path_join PLOT_CACHE_DIR name
          \<and> str_in (''d'' @ str_int DoY) name"
proof -
  have "str_in (''d'' @ str_int DoY)
          ((''MA'' @ str_int m @ ''-'' @ str_int days_back @ ''-'')
             @ (''d'' @ str_int DoY) @ ''.json'')"
    by (rule str_in_append)
  then show ?thesis by (auto simp: MA_cache_path_def)
qed

lemma PIE_name_tagged:
  "\<exists>name. PIE_cache_path m DoY = path_join PLOT_CACHE_DIR name
          \<and> str_in (''d'' @ str_int DoY) name"
proof -
  have "str_in (''d'' @ str_int DoY)
          ((''PIE'' @ str_int m @ ''-'') @ (''d'' @ str_int DoY) @ ''.json'')"
    by (rule str_in_append)
  then show ?thesis by (auto simp: PIE_cache_path_def)
qed

lemma update_cache_keeps:
  assumes "dir_exists fs" and "str_in (''d'' @ str_int DoY) name"
  shows "\<exists>fs' f. update_cache L fs fig (path_join PLOT_CACHE_DIR name) DoY = Inr fs'
           \<and> dir_exists fs'
           \<and> files fs' (path_join PLOT_CACHE_DIR name) = Some f
           \<and> content f = json_dumps L fig
           \<and> readable f =
               (case files fs (path_join PLOT_CACHE_DIR name) of
                  None \<Rightarrow> True | Some g \<Rightarrow> readable g)"
  using assms
  by (auto simp: update_cache_def write_file_def sweep_def entry_name_join split: option.splits)

text \<open>
  C9. For every payload and day of the year, when the cache directory exists and
  \<open>cache_path\<close> is the path either route builds for that day, \<open>_update_cache\<close>
  completes and the file at \<open>cache_path\<close> exists afterwards and holds the serialised
  payload: the sweep leaves it, its name containing the tag \<open>d{DoY}\<close>.
\<close>

theorem sweep_keeps_written_entry:
  assumes "dir_exists fs"
      and "cache_path = MA_cache_path m days_back DoY \<or> cache_path = PIE_cache_path m DoY"
  shows "\<exists>fs' f. update_cache L fs fig cache_path DoY = Inr fs'
           \<and> files fs' cache_path = Some f \<and> content f = json_dumps L fig"
proof -
  obtain name where "cache_path = path_join PLOT_CACHE_DIR name"
      and "str_in (''d'' @ str_int DoY) name"
    using assms(2) MA_name_tagged [of m days_back DoY] PIE_name_tagged [of m DoY] by auto
  then show ?thesis
    using update_cache_keeps [OF assms(1), of DoY name L fig] by auto
qed

theorem sweep_keeps_written_entry_witness:
  "dir_exists empty_fs
   \<and> (\<exists>fs' f. update_cache sample_libs empty_fs ''{x}'' (MA_cache_path 90 30 145) 145 = Inr fs'
         \<and> files fs' (MA_cache_path 90 30 145) = Some f \<and> content f = ''{x}'')"
  using sweep_keeps_written_entry
    [of empty_fs "MA_cache_path 90 30 145" 90 30 145 sample_libs "''{x}''"]
  by (simp add: empty_fs_def sample_libs_def)

lemmas str_eval = str_int_def str_nat.simps digit_char_def path_join_def PLOT_CACHE_DIR_def
  MA_cache_path_def PIE_cache_path_def

lemmas date_eval = date_minus_def timedelta_def MAXORDINAL_def

text \<open>
  C3. A write for day of the year \<open>D'\<close> is to leave no file of another day \<open>D\<close> in the
  cache directory. The sweep tests whether \<open>d{D'}\<close> occurs in the file name, so a file of
  day 300 passes the test for day 30: written on 2020-10-26 (ordinal 737724, day 300), the
  entry \<open>MA90-30-d300.json\<close> is still there after the write of 2021-01-30 (ordinal
  737820, day 30).
\<close>

theorem stale_day_survives_sweep:
  "tm_yday 737724 = 300 \<and> tm_yday 737820 = 30
   \<and> (case update_cache sample_libs empty_fs ''{old}''
              (MA_cache_path 90 30 (tm_yday 737724)) (tm_yday 737724) of
        Inl e \<Rightarrow> None
      | Inr fs1 \<Rightarrow>
         (case update_cache sample_libs fs1 ''{new}''
                 (MA_cache_path 90 30 (tm_yday 737820)) (tm_yday 737820) of
            Inl e \<Rightarrow> None
          | Inr fs2 \<Rightarrow> files fs2 (MA_cache_path 90 30 (tm_yday 737724))))
       = Some \<lparr>readable = True, content = ''{old}''\<rparr>"
  by (simp add: tm_yday_def Let_def update_cache_def write_file_def sweep_def entry_name_def
      empty_fs_def sample_libs_def str_eval)

section \<open>The cache: reading\<close>

lemma cached_miss:
  "open_read fs p = Inl FileNotFoundError \<Longrightarrow>
     result (cached L fs p DoY c plotted) = loads_plot L plotted
     \<and> take 2 (calls (cached L fs p DoY c plotted)) = [Open_cache p, c]"
  by (simp add: cached_def split: sum.splits)

lemma cached_corrupt:
  "open_read fs p = Inr s \<Longrightarrow> json_loads L s = None \<Longrightarrow>
     cached L fs p DoY c plotted =
       \<lparr>result = Inl JSONDecodeError, tasks = [], calls = [Open_cache p]\<rparr>"
  by (simp add: cached_def)

lemma cached_denied:
  "open_read fs p = Inl PermissionError \<Longrightarrow>
     cached L fs p DoY c plotted =
       \<lparr>result = Inl PermissionError, tasks = [], calls = [Open_cache p]\<rparr>"
  by (simp add: cached_def)

lemma cached_hit:
  "open_read fs p = Inr s \<Longrightarrow> json_loads L s = Some fig \<Longrightarrow>
     cached L fs p DoY c plotted = \<lparr>result = Inr fig, tasks = [], calls = [Open_cache p]\<rparr>"
  by (simp add: cached_def)

lemma moving_avg_valid:
  "m = 90 \<or> m = 365 \<Longrightarrow>
     moving_avg L session fs today m days_back =
       cached L fs (MA_cache_path m days_back (tm_yday today)) (tm_yday today)
         (Plot_moving_avg m days_back) (plot_moving_avg L session today m days_back)"
  by (simp add: moving_avg_def check_m_valid Let_def)

lemma exit_pie_valid:
  "m = 90 \<or> m = 365 \<Longrightarrow>
     exit_pie L session fs today m =
       cached L fs (PIE_cache_path m (tm_yday today)) (tm_yday today)
         (Plot_exit_pie m) (plot_exit_pie L session today m)"
  by (simp add: exit_pie_def check_m_valid Let_def)

text \<open>
  C4, as stated: every failure to read the cache file is a miss and never reaches the
  caller. It fails for a file that does not parse and for a file the process may not
  read: on 2020-10-26, with the entry \<open>MA90-1-d300.json\<close> holding \<open>garbage\<close>, the route
  ends in JSONDecodeError; with the entry unreadable, in PermissionError; neither plots.
  With no entry it returns the plotted figure.
\<close>

theorem cache_failures_surface:
  "moving_avg sample_libs [member 737544 ''Permanent Exit'']
       (fs_with (MA_cache_path 90 1 300) \<lparr>readable = True, content = ''garbage''\<rparr>) 737724 90 1
     = \<lparr>result = Inl JSONDecodeError, tasks = [], calls = [Open_cache (MA_cache_path 90 1 300)]\<rparr>
   \<and> moving_avg sample_libs [member 737544 ''Permanent Exit'']
       (fs_with (MA_cache_path 90 1 300) \<lparr>readable = False, content = ''{}''\<rparr>) 737724 90 1
     = \<lparr>result = Inl PermissionError, tasks = [], calls = [Open_cache (MA_cache_path 90 1 300)]\<rparr>
   \<and> moving_avg sample_libs [member 737544 ''Permanent Exit''] empty_fs 737724 90 1
     = \<lparr>result = Inr ''{line: 90-Day Moving Averages}'',
        tasks = [Update_cache ''{line: 90-Day Moving Averages}'' (MA_cache_path 90 1 300) 300],
        calls = [Open_cache (MA_cache_path 90 1 300), Plot_moving_avg 90 1,
                 Add_task (MA_cache_path 90 1 300)]\<rparr>"
  by (simp add: moving_avg_def check_m_def cached_def open_read_def empty_fs_def fs_with_def
      loads_plot_def sample_libs_def tm_yday_def
      plot_moving_avg_def compute_moving_def exit_df_eq to_row_def member_def unique_def
      STEP_def range_py.simps subset_rows_def truediv_def
      date_eval fillna0_def columns_def Let_def str_eval)

text \<open>
  C4, amended. For a valid \<open>m\<close>, in both routes: when opening the cache file raises
  FileNotFoundError, the route goes on to plot, and its result is that of parsing the
  plot; when the file is read and does not parse, the route ends in JSONDecodeError,
  and when opening it raises PermissionError, in PermissionError, without plotting.
\<close>

theorem cache_read_failures:
  assumes "m = 90 \<or> m = 365"
      and "p = MA_cache_path m days_back (tm_yday today)"
      and "q = PIE_cache_path m (tm_yday today)"
  shows "(open_read fs p = Inl FileNotFoundError \<longrightarrow>
            result (moving_avg L session fs today m days_back)
              = loads_plot L (plot_moving_avg L session today m days_back)
          \<and> take 2 (calls (moving_avg L session fs today m days_back))
              = [Open_cache p, Plot_moving_avg m days_back])
       \<and> (open_read fs q = Inl FileNotFoundError \<longrightarrow>
            result (exit_pie L session fs today m)
              = loads_plot L (plot_exit_pie L session today m)
          \<and> take 2 (calls (exit_pie L session fs today m)) = [Open_cache q, Plot_exit_pie m])
       \<and> (\<forall>s. open_read fs p = Inr s \<and> json_loads L s = None \<longrightarrow>
            moving_avg L session fs today m days_back
              = \<lparr>result = Inl JSONDecodeError, tasks = [], calls = [Open_cache p]\<rparr>)
       \<and> (\<forall>s. open_read fs q = Inr s \<and> json_loads L s = None \<longrightarrow>
            exit_pie L session fs today m
              = \<lparr>result = Inl JSONDecodeError, tasks = [], calls = [Open_cache q]\<rparr>)
       \<and> (open_read fs p = Inl PermissionError \<longrightarrow>
            moving_avg L session fs today m days_back
              = \<lparr>result = Inl PermissionError, tasks = [], calls = [Open_cache p]\<rparr>)
       \<and> (open_read fs q = Inl PermissionError \<longrightarrow>
            exit_pie L session fs today m
              = \<lparr>result = Inl PermissionError, tasks = [], calls = [Open_cache q]\<rparr>)"
  using assms(1) unfolding assms(2,3)
  by (simp add: moving_avg_valid exit_pie_valid cached_miss cached_corrupt cached_denied)

theorem cache_read_failures_witness:
  "open_read empty_fs (MA_cache_path 90 1 (tm_yday 737724)) = Inl FileNotFoundError
   \<and> result (moving_avg sample_libs [member 737544 ''Permanent Exit''] empty_fs 737724 90 1)
       = loads_plot sample_libs
           (plot_moving_avg sample_libs [member 737544 ''Permanent Exit''] 737724 90 1)
   \<and> open_read (fs_with (MA_cache_path 90 1 (tm_yday 737724))
         \<lparr>readable = False, content = ''{}''\<rparr>) (MA_cache_path 90 1 (tm_yday 737724))
       = Inl PermissionError
   \<and> result (moving_avg sample_libs [member 737544 ''Permanent Exit'']
        (fs_with (MA_cache_path 90 1 (tm_yday 737724)) \<lparr>readable = False, content = ''{}''\<rparr>)
        737724 90 1) = Inl PermissionError"
  using cache_read_failures [of 90 "MA_cache_path 90 1 (tm_yday 737724)" 1 737724
      "PIE_cache_path 90 (tm_yday 737724)" empty_fs sample_libs
      "[member 737544 ''Permanent Exit'']"]
    cache_read_failures [of 90 "MA_cache_path 90 1 (tm_yday 737724)" 1 737724
      "PIE_cache_path 90 (tm_yday 737724)"
      "fs_with (MA_cache_path 90 1 (tm_yday 737724)) \<lparr>readable = False, content = ''{}''\<rparr>"
      sample_libs "[member 737544 ''Permanent Exit'']"]
  by (simp add: open_read_def empty_fs_def fs_with_def)

section \<open>The moving averages\<close>

text \<open>
  C1. A bucket with no record in its window is to give 0 for every category, without a
  division by zero. The code divides by the bucket's count: with one record on the anchor
  date and \<open>days_back = 3\<close>, the bucket of offset 1 is empty and line 91 raises
  ZeroDivisionError, which escapes \<open>plot_moving_avg\<close> and the route.
\<close>

theorem empty_bucket_divides_by_zero:
  "compute_moving [member 737544 ''Permanent Exit''] 737724 90 3 = Inl ZeroDivisionError
   \<and> plot_moving_avg L [member 737544 ''Permanent Exit''] 737724 90 3 = Inl ZeroDivisionError
   \<and> result (moving_avg L [member 737544 ''Permanent Exit''] empty_fs 737724 90 3)
       = Inl ZeroDivisionError"
  by (simp add: moving_avg_def check_m_def cached_def open_read_def empty_fs_def loads_plot_def
      plot_moving_avg_def compute_moving_def exit_df_eq to_row_def member_def unique_def
      STEP_def range_py.simps subset_rows_def truediv_def date_eval Let_def)

lemma breakdown_eq:
  "breakdown sub dests =
     (if dests \<noteq> [] \<and> sub = [] then Inl ZeroDivisionError else Inr (proportions sub dests))"
  by (induction dests) (auto simp: proportions_def truediv_def)

lemma date_minus_Inr:
  "date_minus d n = Inr x \<longleftrightarrow>
     \<bar>n\<bar> \<le> 999999999 \<and> 0 < d - n \<and> d - n \<le> MAXORDINAL \<and> x = d - n"
  by (auto simp: date_minus_def timedelta_def)

lemma date_minus_ok:
  "\<bar>n\<bar> \<le> 999999999 \<Longrightarrow> 0 < d - n \<Longrightarrow> d - n \<le> MAXORDINAL \<Longrightarrow> date_minus d n = Inr (d - n)"
  by (simp add: date_minus_Inr)

text \<open>A loop that returns has appended one row per offset; and it returns when the dates
  of every offset are in range and no bucket is empty.\<close>

lemma moving_loop_Inr:
  "moving_loop df dests last' m moving offs = Inr frame \<Longrightarrow>
     frame = moving @ map (\<lambda>i. (last' - i, proportions (bucket df last' m i) dests)) offs"
proof (induction offs arbitrary: moving)
  case Nil
  then show ?case by simp
next
  case (Cons i offs)
  from Cons.prems obtain end' start b where
      e: "date_minus last' i = Inr end'" and s: "date_minus end' m = Inr start"
      and b: "breakdown (subset_rows df start end') dests = Inr b"
      and rest: "moving_loop df dests last' m (moving @ [(end', b)]) offs = Inr frame"
    by (auto split: sum.splits)
  have "end' = last' - i" "start = last' - i - m"
    using e s by (auto simp: date_minus_Inr)
  then have "b = proportions (bucket df last' m i) dests"
    using b by (simp add: breakdown_eq bucket_def split: if_splits)
  then show ?case
    using Cons.IH [OF rest] \<open>end' = last' - i\<close> by simp
qed

lemma moving_loop_ok:
  assumes "\<bar>m\<bar> \<le> 999999999"
      and "\<forall>i \<in> set offs. \<bar>i\<bar> \<le> 999999999 \<and> 0 < last' - i - m \<and> last' - i \<le> MAXORDINAL
             \<and> 0 < last' - i \<and> last' - i - m \<le> MAXORDINAL \<and> bucket df last' m i \<noteq> []"
  shows "moving_loop df dests last' m moving offs
           = Inr (moving @ map (\<lambda>i. (last' - i, proportions (bucket df last' m i) dests)) offs)"
  using assms(2)
proof (induction offs arbitrary: moving)
  case Nil
  then show ?case by simp
next
  case (Cons i offs)
  then have i: "\<bar>i\<bar> \<le> 999999999" "0 < last' - i - m" "last' - i \<le> MAXORDINAL"
      "0 < last' - i" "last' - i - m \<le> MAXORDINAL" "bucket df last' m i \<noteq> []"
    by auto
  have e: "date_minus last' i = Inr (last' - i)"
    using i by (simp add: date_minus_ok)
  have s: "date_minus (last' - i) m = Inr (last' - i - m)"
    using i assms(1) by (simp add: date_minus_ok)
  have b: "breakdown (subset_rows df (last' - i - m) (last' - i)) dests
             = Inr (proportions (bucket df last' m i) dests)"
    using i(6) by (simp add: breakdown_eq bucket_def)
  show ?case
    using Cons.IH [of "moving @ [(last' - i, proportions (bucket df last' m i) dests)]"]
      Cons.prems
    by (simp add: e s b)
qed

lemma remdups_append_subset: "set xs \<subseteq> set ys \<Longrightarrow> remdups (xs @ ys) = remdups ys"
  by (induction xs) auto

lemma unique_append_subset:
  "distinct xs \<Longrightarrow> set ys \<subseteq> set xs \<Longrightarrow> unique (xs @ ys) = xs"
  by (simp add: unique_def remdups_append_subset distinct_remdups_id)

lemma distinct_unique: "distinct (unique xs)"
  by (simp add: unique_def)

lemma set_unique: "set (unique xs) = set xs"
  by (simp add: unique_def)

lemma columns_same:
  assumes "distinct dests" and "offs \<noteq> []"
  shows "columns (map (\<lambda>i. (e i, proportions (s i) dests)) offs) = dests"
proof -
  obtain i rest where offs: "offs = i # rest" using assms(2) by (cases offs) auto
  have keys: "map fst (proportions sub dests) = dests" for sub
    by (simp add: proportions_def comp_def)
  have "concat (map (\<lambda>(e, b). map fst b) (map (\<lambda>i. (e i, proportions (s i) dests)) offs))
          = dests @ concat (map (\<lambda>i. dests) rest)"
    by (simp add: offs keys comp_def)
  moreover have "set (concat (map (\<lambda>i. dests) rest)) \<subseteq> set dests" by auto
  ultimately show ?thesis
    using assms(1) by (simp add: columns_def unique_append_subset)
qed

lemma map_of_proportions:
  "c \<in> set dests \<Longrightarrow>
     map_of (proportions sub dests) c
       = Some (of_int (int (length (filter (\<lambda>r. row_dest r = c) sub))) / of_int (int (length sub)))"
  unfolding proportions_def by (induction dests) auto

lemma refill_proportions:
  "map (\<lambda>c. (c, case map_of (proportions sub dests) c of None \<Rightarrow> 0 | Some v \<Rightarrow> v)) dests
     = proportions sub dests"
proof -
  have "map (\<lambda>c. (c, case map_of (proportions sub dests) c of None \<Rightarrow> 0 | Some v \<Rightarrow> v)) dests
      = map (\<lambda>c. (c, of_int (int (length (filter (\<lambda>r. row_dest r = c) sub)))
                        / of_int (int (length sub)))) dests"
    by (rule map_cong) (simp_all add: map_of_proportions)
  then show ?thesis by (simp add: proportions_def)
qed

lemma fillna0_same:
  assumes "distinct dests"
  shows "fillna0 (map (\<lambda>i. (e i, proportions (s i) dests)) offs)
           = map (\<lambda>i. (e i, proportions (s i) dests)) offs"
proof (cases "offs = []")
  case True
  then show ?thesis by (simp add: fillna0_def)
next
  case False
  then show ?thesis
    by (simp add: fillna0_def columns_same [OF assms False] refill_proportions)
qed

lemma STEP_nonzero: "STEP days_back \<noteq> 0"
  by (simp add: STEP_def)

text \<open>The frame \<open>moving\<close> when it is returned, and when it is.\<close>

lemma compute_moving_Inr:
  assumes "compute_moving session today m days_back = Inr moving"
      and "df = exit_df session (today - 180 - (m + days_back)) (today - 180)"
  shows "df \<noteq> []"
    and "moving = map (\<lambda>i. (today - 180 - i,
                            proportions (bucket df (today - 180) m i) (unique (map row_dest df))))
                    (offsets days_back)"
proof -
  from assms(1) obtain last' first frame where
      l: "date_minus today 180 = Inr last'" and f: "date_minus last' (m + days_back) = Inr first"
      and ne: "exit_df session first last' \<noteq> []"
      and loop: "moving_loop (exit_df session first last')
                   (unique (map row_dest (exit_df session first last'))) last' m []
                   (range_py 0 days_back (STEP days_back)) = Inr frame"
      and fill: "moving = fillna0 frame"
    by (auto simp: compute_moving_def Let_def STEP_nonzero split: sum.splits if_splits)
  have dates: "last' = today - 180" "first = today - 180 - (m + days_back)"
    using l f by (auto simp: date_minus_Inr)
  then have df: "exit_df session first last' = df"
    by (simp add: assms(2))
  show "df \<noteq> []" using ne df by simp
  have "moving_loop df (unique (map row_dest df)) last' m []
          (range_py 0 days_back (STEP days_back)) = Inr frame"
    using loop unfolding df .
  then have "moving_loop df (unique (map row_dest df)) (today - 180) m []
          (range_py 0 days_back (STEP days_back)) = Inr frame"
    unfolding dates(1) .
  then have "frame = map (\<lambda>i. (today - 180 - i,
                          proportions (bucket df (today - 180) m i) (unique (map row_dest df))))
                  (offsets days_back)"
    using moving_loop_Inr by (fastforce simp: offsets_def)
  then show "moving = map (\<lambda>i. (today - 180 - i,
                            proportions (bucket df (today - 180) m i) (unique (map row_dest df))))
                    (offsets days_back)"
    using fill by (simp add: fillna0_same distinct_unique)
qed

lemma compute_moving_ok:
  assumes "\<bar>m\<bar> \<le> 999999999" and "\<bar>m + days_back\<bar> \<le> 999999999"
      and "180 < today" and "today - 180 \<le> MAXORDINAL"
      and "0 < today - 180 - (m + days_back)" and "today - 180 - (m + days_back) \<le> MAXORDINAL"
      and "df = exit_df session (today - 180 - (m + days_back)) (today - 180)" and "df \<noteq> []"
      and "\<forall>i \<in> set (offsets days_back).
             \<bar>i\<bar> \<le> 999999999 \<and> 0 < today - 180 - i - m \<and> today - 180 - i \<le> MAXORDINAL
             \<and> 0 < today - 180 - i \<and> today - 180 - i - m \<le> MAXORDINAL
             \<and> bucket df (today - 180) m i \<noteq> []"
  shows "compute_moving session today m days_back
           = Inr (map (\<lambda>i. (today - 180 - i,
                             proportions (bucket df (today - 180) m i) (unique (map row_dest df))))
                     (offsets days_back))"
proof -
  have l: "date_minus today 180 = Inr (today - 180)"
    using assms(3,4) by (simp add: date_minus_ok)
  have f: "date_minus (today - 180) (m + days_back) = Inr (today - 180 - (m + days_back))"
    using assms(2,5,6) by (simp add: date_minus_ok)
  have loop: "moving_loop df (unique (map row_dest df)) (today - 180) m []
                (range_py 0 days_back (STEP days_back))
      = Inr ([] @ map (\<lambda>i. (today - 180 - i,
                 proportions (bucket df (today - 180) m i) (unique (map row_dest df))))
               (range_py 0 days_back (STEP days_back)))"
    using assms(9) unfolding offsets_def by (intro moving_loop_ok assms(1))
  have "exit_df session (today - 180 - (m + days_back)) (today - 180) = df"
    by (simp add: assms(7))
  then show ?thesis
    using assms(8)
    by (simp add: compute_moving_def l f Let_def STEP_nonzero loop fillna0_same
        distinct_unique offsets_def)
qed


lemma bucket_rows:
  "(e, b) \<in> set (map (\<lambda>i. (last' - i, proportions (bucket df last' m i) dests)) offs) \<Longrightarrow>
     b = proportions (subset_rows df (e - m) e) dests"
  by (auto simp: bucket_def)

text \<open>
  C2, as stated: every bucket's breakdown has an entry for each of the five categories.
  The columns are the destinations found in the fetched rows: with one record, of
  Permanent Exit, the only bucket has that one entry and none for Temporary Exit.
\<close>

theorem category_absent_counterexample:
  "compute_moving [member 737544 ''Permanent Exit''] 737724 90 1
     = Inr [(737544, [(''Permanent Exit'', 1)])]
   \<and> ''Temporary Exit'' \<in> set category_orders
   \<and> map_of [(''Permanent Exit'', 1::rat)] ''Temporary Exit'' = None"
  by (simp add: compute_moving_def exit_df_eq to_row_def member_def unique_def
      STEP_def range_py.simps subset_rows_def truediv_def date_eval fillna0_def columns_def Let_def
      category_orders_def)

text \<open>
  C2, amended. In every bucket that \<open>plot_moving_avg\<close> computes, the breakdown has one
  entry for each destination occurring in the fetched rows, in order of first appearance,
  and no other; the entry is the destination's share of the bucket's rows, so 0 for a
  destination with no row in the bucket.
\<close>

theorem breakdown_keys_are_fetched_destinations:
  assumes "compute_moving session today m days_back = Inr moving"
      and "(e, b) \<in> set moving"
      and "df = exit_df session (today - 180 - (m + days_back)) (today - 180)"
  shows "map fst b = unique (map row_dest df)
       \<and> set (map fst b) = row_dest ` set df
       \<and> (\<forall>dest \<in> row_dest ` set df.
            map_of b dest
              = Some (of_int (int (length (filter (\<lambda>r. row_dest r = dest) (subset_rows df (e - m) e))))
                       / of_int (int (length (subset_rows df (e - m) e)))))
       \<and> (\<forall>dest \<in> row_dest ` set df.
            filter (\<lambda>r. row_dest r = dest) (subset_rows df (e - m) e) = []
              \<longrightarrow> map_of b dest = Some 0)"
proof -
  let ?dests = "unique (map row_dest df)"
  have "moving = map (\<lambda>i. (today - 180 - i, proportions (bucket df (today - 180) m i) ?dests))
                   (offsets days_back)"
    by (rule compute_moving_Inr(2) [OF assms(1) assms(3)])
  then have b: "b = proportions (subset_rows df (e - m) e) ?dests"
    using assms(2) bucket_rows by blast
  have keys: "map fst b = ?dests"
    by (simp add: b proportions_def comp_def)
  have dests: "set ?dests = row_dest ` set df"
    by (simp add: set_unique)
  show ?thesis
    using keys dests by (auto simp: b map_of_proportions)
qed

theorem breakdown_keys_are_fetched_destinations_witness:
  "compute_moving [member 737544 ''Permanent Exit'', member 737543 ''Temporary Exit''] 737724 90 2
     = Inr [(737544, [(''Permanent Exit'', 1 / 2), (''Temporary Exit'', 1 / 2)]),
            (737543, [(''Permanent Exit'', 0), (''Temporary Exit'', 1)])]
   \<and> map fst [(''Permanent Exit'', 0::rat), (''Temporary Exit'', 1)]
       = unique (map row_dest
           (exit_df [member 737544 ''Permanent Exit'', member 737543 ''Temporary Exit'']
              (737724 - 180 - (90 + 2)) (737724 - 180)))
   \<and> map_of [(''Permanent Exit'', 0::rat), (''Temporary Exit'', 1)] ''Permanent Exit'' = Some 0"
  using breakdown_keys_are_fetched_destinations
    [of "[member 737544 ''Permanent Exit'', member 737543 ''Temporary Exit'']" 737724 90 2
        "[(737544, [(''Permanent Exit'', 1 / 2), (''Temporary Exit'', 1 / 2)]),
          (737543, [(''Permanent Exit'', 0), (''Temporary Exit'', 1)])]"
        737543 "[(''Permanent Exit'', 0), (''Temporary Exit'', 1)]"
        "exit_df [member 737544 ''Permanent Exit'', member 737543 ''Temporary Exit'']
              (737724 - 180 - (90 + 2)) (737724 - 180)"]
  by (simp add: compute_moving_def exit_df_eq to_row_def member_def unique_def
      STEP_def range_py.simps subset_rows_def truediv_def date_eval fillna0_def columns_def Let_def)

section \<open>The offsets of the loop\<close>

lemma STEP_nonneg: "0 \<le> days_back \<Longrightarrow> STEP days_back = max 1 (days_back div 90)"
  unfolding STEP_def by (simp add: pos_imp_zdiv_nonneg_iff max_def) 

lemma map_upt_Suc_shift:
  "map (\<lambda>k. i + int k * step) [0..<Suc n] = i # map (\<lambda>k. i + step + int k * step) [0..<n]"
proof -
  have "[0..<Suc n] = 0 # map Suc [0..<n]"
    by (simp add: upt_conv_Cons map_Suc_upt del: upt_Suc)
  then show ?thesis
    by (simp add: comp_def algebra_simps del: upt_Suc)
qed

lemma range_py_pos:
  "0 < step \<Longrightarrow>
     range_py i stop step = map (\<lambda>k. i + int k * step) [0..<nat ((stop - i + step - 1) div step)]"
proof (induction i stop step rule: range_py.induct)
  case (1 i stop step)
  show ?case
  proof (cases "i < stop")
    case True
    have "stop - i + step - 1 = (stop - (i + step) + step - 1) + step"
      by simp
    then have "(stop - i + step - 1) div step = (stop - (i + step) + step - 1) div step + 1"
      using 1(3) by (metis div_add_self2 less_irrefl)
    moreover have "0 \<le> (stop - (i + step) + step - 1) div step"
      using 1(3) True by (simp add: pos_imp_zdiv_nonneg_iff)
    ultimately have n: "nat ((stop - i + step - 1) div step)
        = Suc (nat ((stop - (i + step) + step - 1) div step))"
      by simp
    have "range_py i stop step = i # range_py (i + step) stop step"
      using 1(3) True by (subst range_py.simps) simp
    also have "\<dots> = i # map (\<lambda>k. i + step + int k * step)
                          [0..<nat ((stop - (i + step) + step - 1) div step)]"
      using 1(1) 1(3) True by simp
    finally show ?thesis
      unfolding n map_upt_Suc_shift .
  next
    case False
    have "(stop - i + step - 1) div step \<le> 0"
    proof (cases "stop - i + step - 1 < 0")
      case True
      then show ?thesis using 1(3) by (simp add: pos_imp_zdiv_neg_iff less_imp_le)
    next
      case neg: False
      then have "(stop - i + step - 1) div step = 0"
        using False 1(3) by (simp add: div_pos_pos_trivial)
      then show ?thesis by simp
    qed
    then show ?thesis
      using False 1(3) by (subst range_py.simps) simp
  qed
qed

lemma offsets_nonneg:
  assumes "0 \<le> days_back"
  shows "offsets days_back =
           map (\<lambda>k. int k * STEP days_back)
             [0..<nat ((days_back + STEP days_back - 1) div STEP days_back)]"
proof -
  have "0 < STEP days_back"
    using assms by (simp add: STEP_nonneg)
  then show ?thesis
    unfolding offsets_def by (simp add: range_py_pos)
qed

lemma offsets_180: "offsets 180 = map (\<lambda>k. 2 * int k) [0..<90]"
  by (simp add: offsets_nonneg STEP_def mult.commute)

lemma offsets_0: "offsets 0 = []"
  by (simp add: offsets_def range_py.simps)


lemma set_range_py_pos:
  "0 < step \<Longrightarrow> set (range_py i stop step) = {j. i \<le> j \<and> j < stop \<and> step dvd (j - i)}"
proof (induction i stop step rule: range_py.induct)
  case (1 i stop step)
  show ?case
  proof (cases "i < stop")
    case True
    have "range_py i stop step = i # range_py (i + step) stop step"
      using 1(3) True by (subst range_py.simps) simp
    moreover have "set (range_py (i + step) stop step)
        = {j. i + step \<le> j \<and> j < stop \<and> step dvd (j - (i + step))}"
      using 1(1) 1(3) True by simp
    moreover have "{j. i \<le> j \<and> j < stop \<and> step dvd (j - i)}
        = insert i {j. i + step \<le> j \<and> j < stop \<and> step dvd (j - (i + step))}"
    proof (intro set_eqI iffI)
      fix j assume "j \<in> {j. i \<le> j \<and> j < stop \<and> step dvd (j - i)}"
      then have j: "i \<le> j" "j < stop" "step dvd (j - i)" by auto
      show "j \<in> insert i {j. i + step \<le> j \<and> j < stop \<and> step dvd (j - (i + step))}"
      proof (cases "j = i")
        case True
        then show ?thesis by simp
      next
        case False
        then have "0 < j - i" using j(1) by simp
        then have "step \<le> j - i" using j(3) by (simp add: zdvd_imp_le)
        moreover have "step dvd (j - i - step)" using j(3) by simp
        ultimately show ?thesis using j(2) by (simp add: algebra_simps)
      qed
    next
      fix j assume "j \<in> insert i {j. i + step \<le> j \<and> j < stop \<and> step dvd (j - (i + step))}"
      then consider "j = i" | "i + step \<le> j" "j < stop" "step dvd (j - (i + step))" by auto
      then show "j \<in> {j. i \<le> j \<and> j < stop \<and> step dvd (j - i)}"
      proof cases
        case 1
        then show ?thesis using True by simp
      next
        case 2
        have "j - i = (j - (i + step)) + step" by simp
        then have "step dvd (j - i)" using 2(3) by (metis dvd_add_triv_right_iff)
        then show ?thesis using 2 1(3) by simp
      qed
    qed
    ultimately show ?thesis by simp
  next
    case False
    then show ?thesis
      using 1(3) by (subst range_py.simps) auto
  qed
qed

lemma compute_moving_ends:
  "compute_moving session today m days_back = Inr moving \<Longrightarrow>
     map fst moving = map (\<lambda>i. today - 180 - i) (offsets days_back)"
  using compute_moving_Inr(2) [of session today m days_back moving]
  by (simp add: comp_def)

text \<open>
  C6. With \<open>days_back = 0\<close> the loop is empty and the result is to be an empty sequence,
  not an error; with \<open>days_back = 180\<close> and \<open>m = 90\<close> there are to be exactly 90 buckets.
  The step and the offsets are as the claim says (\<open>STEP_nonneg\<close>, \<open>offsets_nonneg\<close>,
  \<open>offsets_180\<close>, \<open>offsets_0\<close>), and a frame that is returned has one row per offset
  (\<open>compute_moving_ends\<close>). But on 2020-10-26 with no record in the table, the frame of
  \<open>_exit_df\<close> has no column \<open>dest\<close> and line 79 raises KeyError before the loop is
  reached, for \<open>days_back = 0\<close> as for any other; and with a single record on the anchor
  date, \<open>days_back = 180\<close> ends in the ZeroDivisionError of the empty bucket of offset 2.
\<close>

theorem empty_fetch_raises_key_error:
  "STEP 0 = 1 \<and> offsets 0 = []
   \<and> compute_moving [] 737724 90 0 = Inl (KeyError ''dest'')
   \<and> plot_moving_avg L [] 737724 90 0 = Inl (KeyError ''dest'')
   \<and> result (moving_avg L [] empty_fs 737724 90 0) = Inl (KeyError ''dest'')
   \<and> compute_moving [member 737544 ''Permanent Exit''] 737724 90 0 = Inr []
   \<and> STEP 180 = 2 \<and> offsets 180 = map (\<lambda>k. 2 * int k) [0..<90]
   \<and> compute_moving [member 737544 ''Permanent Exit''] 737724 90 180 = Inl ZeroDivisionError"
proof -
  have "compute_moving [] 737724 90 0 = Inl (KeyError ''dest'')"
    by (simp add: compute_moving_def exit_df_eq date_eval)
  moreover have "compute_moving [member 737544 ''Permanent Exit''] 737724 90 0 = Inr []"
    by (simp add: compute_moving_def exit_df_eq to_row_def member_def unique_def
        STEP_def range_py.simps date_eval fillna0_def Let_def)
  moreover have "compute_moving [member 737544 ''Permanent Exit''] 737724 90 180
      = Inl ZeroDivisionError"
    by (simp add: compute_moving_def exit_df_eq to_row_def member_def unique_def
        STEP_def range_py.simps subset_rows_def truediv_def date_eval Let_def)
  ultimately show ?thesis
    by (simp add: offsets_0 offsets_180 STEP_def plot_moving_avg_def moving_avg_def check_m_def
        cached_def open_read_def empty_fs_def loads_plot_def)
qed

section \<open>Negative ranges\<close>

lemma range_py_uminus:
  "range_py i stop step = map uminus (range_py (- i) (- stop) (- step))"
proof (induction i stop step rule: range_py.induct)
  case (1 i stop step)
  show ?case
  proof (cases "(0 < step \<and> i < stop) \<or> (step < 0 \<and> stop < i)")
    case True
    then have "range_py i stop step = i # range_py (i + step) stop step"
      by (subst range_py.simps) auto
    moreover have "range_py (- i) (- stop) (- step)
        = (- i) # range_py (- i + - step) (- stop) (- step)"
      using True by (subst range_py.simps) auto
    moreover have "range_py (i + step) stop step
        = map uminus (range_py (- (i + step)) (- stop) (- step))"
      using True 1 by auto
    ultimately show ?thesis by simp
  next
    case False
    then have "range_py i stop step = []"
      by (subst range_py.simps) auto
    moreover have "range_py (- i) (- stop) (- step) = []"
      using False by (subst range_py.simps) auto
    ultimately show ?thesis by simp
  qed
qed

lemma range_py_neg:
  assumes "step < 0"
  shows "range_py i stop step
           = map (\<lambda>k. i + int k * step) [0..<nat ((i - stop - step - 1) div (- step))]"
proof -
  have "range_py (- i) (- stop) (- step)
      = map (\<lambda>k. - i + int k * (- step)) [0..<nat ((- stop - (- i) + (- step) - 1) div (- step))]"
    using assms by (intro range_py_pos) simp
  moreover have "- stop - (- i) + (- step) - 1 = i - stop - step - 1" by simp
  ultimately show ?thesis
    by (subst range_py_uminus) (simp add: comp_def)
qed

lemma STEP_neg:
  assumes "days_back \<le> - 90"
  shows "STEP days_back < 0" and "days_back < STEP days_back"
proof -
  have q: "days_back div 90 < 0"
    using assms by (simp add: pos_imp_zdiv_neg_iff)
  then have s: "STEP days_back = days_back div 90"
    by (simp add: STEP_def)
  show "STEP days_back < 0" using q s by simp
  have "days_back = 90 * (days_back div 90) + days_back mod 90" by simp
  moreover have "days_back mod 90 < 90" by simp
  ultimately show "days_back < STEP days_back"
    unfolding s using assms by linarith
qed

lemma range_py_neg_le:
  "step < 0 \<Longrightarrow> j \<in> set (range_py i stop step) \<Longrightarrow> j \<le> i"
proof (induction i stop step rule: range_py.induct)
  case (1 i stop step)
  show ?case
  proof (cases "stop < i")
    case True
    then have "range_py i stop step = i # range_py (i + step) stop step"
      using 1(3) by (subst range_py.simps) simp
    then have "j = i \<or> j \<in> set (range_py (i + step) stop step)"
      using 1(4) by simp
    then show ?thesis
    proof
      assume "j = i"
      then show ?thesis by simp
    next
      assume "j \<in> set (range_py (i + step) stop step)"
      then have "j \<le> i + step" using 1(2) 1(3) True by simp
      then show ?thesis using 1(3) by simp
    qed
  next
    case False
    then have "range_py i stop step = []"
      using 1(3) by (subst range_py.simps) simp
    then show ?thesis using 1(4) by simp
  qed
qed

lemma offsets_neg_shape:
  assumes "days_back \<le> - 90"
  shows "\<exists>rest. offsets days_back = 0 # rest \<and> rest \<noteq> [] \<and> (\<forall>j \<in> set rest. j < 0)"
proof -
  let ?s = "STEP days_back"
  let ?rest = "range_py ?s days_back ?s"
  have s: "?s < 0" "days_back < ?s" using STEP_neg [OF assms] by auto
  have "range_py 0 days_back ?s = 0 # range_py (0 + ?s) days_back ?s"
    using s assms by (subst range_py.simps) simp
  then have "offsets days_back = 0 # ?rest"
    by (simp add: offsets_def)
  moreover have "?rest = ?s # range_py (?s + ?s) days_back ?s"
    using s by (subst range_py.simps) simp
  then have "?rest \<noteq> []" by simp
  moreover have "j < 0" if "j \<in> set ?rest" for j
    using range_py_neg_le [OF s(1) that] s(1) by simp
  ultimately show ?thesis by blast
qed

lemma cached_first_call: "take 1 (calls (cached L fs p DoY c plotted)) = [Open_cache p]"
  by (simp add: cached_def split: sum.splits option.splits py_error.splits)

lemma ends_after_anchor:
  assumes "map fst moving = map (\<lambda>i. a - i) (0 # rest)" and "rest \<noteq> []"
      and "\<forall>j \<in> set rest. j < (0::int)"
  shows "fst (hd moving) = a \<and> tl moving \<noteq> [] \<and> (\<forall>(e, b) \<in> set (tl moving). a < e)"
proof -
  obtain x xs where m: "moving = x # xs" using assms(1) by (cases moving) auto
  then have x: "fst x = a" and xs: "map fst xs = map (\<lambda>i. a - i) rest"
    using assms(1) by auto
  have "xs \<noteq> []" using xs assms(2) by auto
  moreover have "a < fst y" if "y \<in> set xs" for y
  proof -
    have "fst y \<in> set (map fst xs)" using that by simp
    then obtain j where "j \<in> set rest" "fst y = a - j" unfolding xs by auto
    then show ?thesis using assms(3) by auto
  qed
  ultimately show ?thesis using m x by auto
qed

lemma range_py_neg_gt:
  "step < 0 \<Longrightarrow> j \<in> set (range_py i stop step) \<Longrightarrow> stop < j"
proof (induction i stop step rule: range_py.induct)
  case (1 i stop step)
  show ?case
  proof (cases "stop < i")
    case True
    then have "range_py i stop step = i # range_py (i + step) stop step"
      using 1(3) by (subst range_py.simps) simp
    then have "j = i \<or> j \<in> set (range_py (i + step) stop step)"
      using 1(4) by simp
    then show ?thesis
      using 1(2) 1(3) True by auto
  next
    case False
    then have "range_py i stop step = []"
      using 1(3) by (subst range_py.simps) simp
    then show ?thesis using 1(4) by simp
  qed
qed

lemma offsets_neg_bounds:
  assumes "days_back \<le> - 90" and "i \<in> set (offsets days_back)"
  shows "days_back < i" and "i \<le> 0"
  using assms STEP_neg(1) [OF assms(1)]
    range_py_neg_gt [of "STEP days_back" i 0 days_back]
    range_py_neg_le [of "STEP days_back" i 0 days_back]
  by (auto simp: offsets_def)

text \<open>With a negative \<open>days_back\<close> the window of every offset covers the whole fetch,
  and with \<open>m + days_back \<le> 0\<close> the fetch is over an empty range of dates.\<close>

lemma bucket_negative_offset:
  assumes "df = exit_df session (last' - (m + days_back)) last'"
      and "days_back < i" and "i \<le> 0"
  shows "bucket df last' m i = df"
  unfolding bucket_def subset_rows_def assms(1) exit_df_eq
  using assms(2,3) by (auto simp: filter_id_conv to_row_def)

lemma nothing_fetched:
  "m + days_back \<le> 0 \<Longrightarrow> exit_df session (last' - (m + days_back)) last' = []"
  by (auto simp: exit_df_eq filter_empty_conv)

text \<open>
  C10, as stated: for \<open>days_back \<le> -90\<close> the iteration produces buckets whose end dates
  lie after the anchor date. With \<open>m = 90\<close> and \<open>days_back = -90\<close> the fetch is over the
  empty range of dates from the anchor to the anchor, whatever the table holds, and the
  route ends in the KeyError of line 79 with no bucket; with \<open>m = 365\<close> and
  \<open>days_back = -4000000\<close> the date \<open>first\<close> is past \<open>date.max\<close> and line 77 raises
  OverflowError.
\<close>

theorem negative_days_back_counterexample:
  "STEP (- 90) = - 1
   \<and> compute_moving [member 737544 ''Permanent Exit'', member 737500 ''Temporary Exit'']
        737724 90 (- 90) = Inl (KeyError ''dest'')
   \<and> result (moving_avg sample_libs
                [member 737544 ''Permanent Exit'', member 737500 ''Temporary Exit'']
                empty_fs 737724 90 (- 90)) = Inl (KeyError ''dest'')
   \<and> compute_moving [member 737544 ''Permanent Exit'', member 737500 ''Temporary Exit'']
        737724 365 (- 4000000) = Inl OverflowError"
  by (simp add: moving_avg_def check_m_def cached_def open_read_def empty_fs_def loads_plot_def
      plot_moving_avg_def compute_moving_def exit_df_eq to_row_def member_def STEP_def
      date_eval)

text \<open>
  C10, amended. \<open>moving_avg\<close> checks \<open>m\<close> only: for a valid \<open>m\<close> and every integer
  \<open>days_back\<close>, negative ones included, the route opens the cache file, and on a miss
  it goes on to the computation and returns what the line plot makes of the computed
  frame, or the exception raised on the way. For \<open>days_back \<le> -90\<close> the step is negative.
  Nothing is fetched when \<open>m + days_back \<le> 0\<close>, as always with \<open>m = 90\<close>. When a record is
  fetched and the dates stay in the range of the calendar, the computation returns one
  bucket per offset, each holding the whole fetch: the first on the anchor date, and at
  least one more, all of these with end dates after the anchor date; and no other frame
  is ever returned.
\<close>

theorem days_back_not_validated:
  assumes "m = 90 \<or> m = 365"
      and "p = MA_cache_path m days_back (tm_yday today)"
      and "df = exit_df session (today - 180 - (m + days_back)) (today - 180)"
      and "frame = map (\<lambda>i. (today - 180 - i, proportions df (unique (map row_dest df))))
                     (offsets days_back)"
  shows "take 1 (calls (moving_avg L session fs today m days_back)) = [Open_cache p]
       \<and> (open_read fs p = Inl FileNotFoundError \<longrightarrow>
            result (moving_avg L session fs today m days_back)
              = loads_plot L
                  (case compute_moving session today m days_back of
                     Inl e \<Rightarrow> Inl e
                   | Inr moving \<Rightarrow>
                       px_line L moving (str_int m @ ''-Day Moving Averages'') category_orders)
          \<and> take 2 (calls (moving_avg L session fs today m days_back))
              = [Open_cache p, Plot_moving_avg m days_back])
       \<and> (days_back \<le> - 90 \<longrightarrow>
            STEP days_back < 0
          \<and> (m + days_back \<le> 0 \<longrightarrow> df = [])
          \<and> (df \<noteq> [] \<and> 180 + m < today \<and> today - 180 - days_back \<le> MAXORDINAL \<longrightarrow>
                compute_moving session today m days_back = Inr frame)
          \<and> (\<forall>moving. compute_moving session today m days_back = Inr moving \<longrightarrow>
                moving = frame)
          \<and> fst (hd frame) = today - 180
          \<and> tl frame \<noteq> []
          \<and> (\<forall>(e, b) \<in> set (tl frame). today - 180 < e))"
proof -
  let ?last = "today - 180"
  let ?dests = "unique (map row_dest df)"
  have first_call: "take 1 (calls (moving_avg L session fs today m days_back)) = [Open_cache p]"
    unfolding assms(2) moving_avg_valid [OF assms(1)] by (rule cached_first_call)
  have miss: "result (moving_avg L session fs today m days_back)
                = loads_plot L
                    (case compute_moving session today m days_back of
                       Inl e \<Rightarrow> Inl e
                     | Inr moving \<Rightarrow>
                         px_line L moving (str_int m @ ''-Day Moving Averages'') category_orders)
            \<and> take 2 (calls (moving_avg L session fs today m days_back))
                = [Open_cache p, Plot_moving_avg m days_back]"
    if "open_read fs p = Inl FileNotFoundError"
    using cached_miss [OF that [unfolded assms(2)]]
    unfolding assms(2) moving_avg_valid [OF assms(1)] plot_moving_avg_def .
  have neg: "STEP days_back < 0
      \<and> (m + days_back \<le> 0 \<longrightarrow> df = [])
      \<and> (df \<noteq> [] \<and> 180 + m < today \<and> today - 180 - days_back \<le> MAXORDINAL \<longrightarrow>
            compute_moving session today m days_back = Inr frame)
      \<and> (\<forall>moving. compute_moving session today m days_back = Inr moving \<longrightarrow> moving = frame)
      \<and> fst (hd frame) = today - 180
      \<and> tl frame \<noteq> []
      \<and> (\<forall>(e, b) \<in> set (tl frame). today - 180 < e)"
    if db: "days_back \<le> - 90"
  proof -
    have buckets: "bucket df ?last m i = df" if "i \<in> set (offsets days_back)" for i
      using bucket_negative_offset [OF assms(3)] offsets_neg_bounds [OF db that] by simp
    then have frame: "frame = map (\<lambda>i. (?last - i, proportions (bucket df ?last m i) ?dests))
                                (offsets days_back)"
      unfolding assms(4) by simp
    have empty: "df = []" if "m + days_back \<le> 0"
      unfolding assms(3) using that by (rule nothing_fetched)
    have returns: "compute_moving session today m days_back = Inr frame"
      if ne: "df \<noteq> []" and lo: "180 + m < today" and hi: "today - 180 - days_back \<le> MAXORDINAL"
    proof -
      have pos: "0 < m + days_back" using empty ne by fastforce
      have m: "90 \<le> m" "m \<le> 365" using assms(1) by auto
      have "\<forall>i \<in> set (offsets days_back).
             \<bar>i\<bar> \<le> 999999999 \<and> 0 < ?last - i - m \<and> ?last - i \<le> MAXORDINAL
             \<and> 0 < ?last - i \<and> ?last - i - m \<le> MAXORDINAL \<and> bucket df ?last m i \<noteq> []"
      proof
        fix i assume i: "i \<in> set (offsets days_back)"
        have "days_back < i" "i \<le> 0" using offsets_neg_bounds [OF db i] by auto
        then show "\<bar>i\<bar> \<le> 999999999 \<and> 0 < ?last - i - m \<and> ?last - i \<le> MAXORDINAL
             \<and> 0 < ?last - i \<and> ?last - i - m \<le> MAXORDINAL \<and> bucket df ?last m i \<noteq> []"
          using pos m lo hi ne buckets [OF i] by (simp add: MAXORDINAL_def)
      qed
      then show ?thesis
        unfolding frame
        using pos m lo hi db ne assms(3)
        by (intro compute_moving_ok) (simp_all add: MAXORDINAL_def)
    qed
    have only: "moving = frame"
      if "compute_moving session today m days_back = Inr moving" for moving
      using compute_moving_Inr(2) [OF that assms(3)] frame by simp
    obtain rest where "offsets days_back = 0 # rest" "rest \<noteq> []" "\<forall>j \<in> set rest. j < 0"
      using offsets_neg_shape [OF db] by auto
    moreover have "map fst frame = map (\<lambda>i. ?last - i) (offsets days_back)"
      unfolding assms(4) by (simp add: comp_def)
    ultimately have "fst (hd frame) = ?last \<and> tl frame \<noteq> []
        \<and> (\<forall>(e, b) \<in> set (tl frame). ?last < e)"
      using ends_after_anchor [of frame ?last rest] by simp
    then show ?thesis
      using STEP_neg(1) [OF db] empty returns only by blast
  qed
  show ?thesis
    using first_call miss neg by blast
qed

lemma offsets_m90: "offsets (- 90) = map (\<lambda>k. - int k) [0..<90]"
  by (simp add: offsets_def STEP_def range_py_neg)

theorem days_back_not_validated_witness:
  "((365::int) = 90 \<or> (365::int) = 365)
   \<and> open_read empty_fs (MA_cache_path 365 (- 90) (tm_yday 737724)) = Inl FileNotFoundError
   \<and> (- 90::int) \<le> - 90
   \<and> exit_df [member 737544 ''Permanent Exit''] (737724 - 180 - (365 + - 90)) (737724 - 180)
       \<noteq> []
   \<and> ((180::int) + 365 < 737724) \<and> (737724::int) - 180 - (- 90) \<le> MAXORDINAL
   \<and> take 1 (calls (moving_avg counting_libs [member 737544 ''Permanent Exit''] empty_fs
                      737724 365 (- 90)))
       = [Open_cache (MA_cache_path 365 (- 90) (tm_yday 737724))]
   \<and> compute_moving [member 737544 ''Permanent Exit''] 737724 365 (- 90)
       = Inr (map (\<lambda>k. (737544 + int k, [(''Permanent Exit'', 1)])) [0..<90])
   \<and> result (moving_avg counting_libs [member 737544 ''Permanent Exit''] empty_fs
                737724 365 (- 90))
       = Inr ''{line: 365-Day Moving Averages, rows: 90, last: 737633}''
   \<and> ((90::int) = 90 \<or> (90::int) = 365) \<and> (90::int) + - 90 \<le> 0
   \<and> exit_df [member 737544 ''Permanent Exit''] (737724 - 180 - (90 + - 90)) (737724 - 180)
       = []"
proof -
  let ?S = "[member 737544 ''Permanent Exit'']"
  let ?df = "exit_df ?S (737724 - 180 - (365 + - 90)) (737724 - 180)"
  let ?frame = "map (\<lambda>i. (737724 - 180 - i, proportions ?df (unique (map row_dest ?df))))
                  (offsets (- 90))"
  let ?rows = "map (\<lambda>k. (737544 + int k, [(''Permanent Exit'', 1::rat)])) [0..<90]"
  let ?fig = "''{line: 365-Day Moving Averages, rows: 90, last: 737633}''"
  have df: "?df = [\<lparr>row_date = 737544, row_dest = ''Permanent Exit''\<rparr>]"
    by (simp add: exit_df_eq member_def to_row_def)
  have props: "proportions ?df (unique (map row_dest ?df)) = [(''Permanent Exit'', 1)]"
    unfolding df by (simp add: proportions_def unique_def)
  have frame: "?frame = ?rows"
    unfolding props by (simp add: offsets_m90 comp_def)
  have valid: "(365::int) = 90 \<or> (365::int) = 365" by simp
  have miss: "open_read empty_fs (MA_cache_path 365 (- 90) (tm_yday 737724))
      = Inl FileNotFoundError"
    by (simp add: open_read_def empty_fs_def)
  have le: "(- 90::int) \<le> - 90" by simp
  have ne: "?df \<noteq> []" unfolding df by simp
  have lo: "(180::int) + 365 < 737724" by simp
  have hi: "(737724::int) - 180 - (- 90) \<le> MAXORDINAL" by (simp add: MAXORDINAL_def)
  have plot: "px_line counting_libs ?rows (str_int 365 @ ''-Day Moving Averages'') category_orders
      = Inr ?fig"
    by (simp add: counting_libs_def sample_libs_def last_map str_int_def str_nat.simps
        digit_char_def)
  have loads: "json_loads counting_libs ?fig = Some ?fig"
    by (simp add: counting_libs_def sample_libs_def)
  note inst = days_back_not_validated [where m = 365 and days_back = "- 90" and today = 737724
      and L = counting_libs and session = ?S and fs = empty_fs, OF valid refl refl refl]
  have first_call: "take 1 (calls (moving_avg counting_libs ?S empty_fs 737724 365 (- 90)))
      = [Open_cache (MA_cache_path 365 (- 90) (tm_yday 737724))]"
    by (rule inst [THEN conjunct1])
  have "compute_moving ?S 737724 365 (- 90) = Inr ?frame"
    by (rule inst [THEN conjunct2, THEN conjunct2, THEN mp, OF le,
          THEN conjunct2, THEN conjunct2, THEN conjunct1, THEN mp]) (intro conjI ne lo hi)
  then have computed: "compute_moving ?S 737724 365 (- 90) = Inr ?rows"
    unfolding frame .
  have "result (moving_avg counting_libs ?S empty_fs 737724 365 (- 90))
      = loads_plot counting_libs
          (case compute_moving ?S 737724 365 (- 90) of
             Inl e \<Rightarrow> Inl e
           | Inr moving \<Rightarrow>
               px_line counting_libs moving (str_int 365 @ ''-Day Moving Averages'')
                 category_orders)"
    by (rule inst [THEN conjunct2, THEN conjunct1, THEN mp, OF miss, THEN conjunct1])
  then have res: "result (moving_avg counting_libs ?S empty_fs 737724 365 (- 90)) = Inr ?fig"
    by (simp only: computed sum.case plot loads_plot_def loads option.case)
  have valid90: "(90::int) = 90 \<or> (90::int) = 365" by simp
  have window: "(90::int) + - 90 \<le> 0" by simp
  have empty_window: "exit_df ?S (737724 - 180 - (90 + - 90)) (737724 - 180) = []"
    by (rule days_back_not_validated [where m = 90 and days_back = "- 90" and today = 737724
          and L = counting_libs and session = ?S and fs = empty_fs,
          OF valid90 refl refl refl, THEN conjunct2, THEN conjunct2, THEN mp, OF le,
          THEN conjunct2, THEN conjunct1, THEN mp, OF window])
  from valid miss le ne lo hi first_call computed res valid90 window empty_window
  show ?thesis
    by (intro conjI) assumption+
qed

section \<open>Two calls on the same day\<close>

lemma cached_result_cases:
  assumes "result (cached L fs p DoY c plotted) = Inr fig"
  shows "(\<exists>s. open_read fs p = Inr s \<and> json_loads L s = Some fig
              \<and> tasks (cached L fs p DoY c plotted) = [])
       \<or> (open_read fs p = Inl FileNotFoundError \<and> loads_plot L plotted = Inr fig
              \<and> tasks (cached L fs p DoY c plotted) = [Update_cache fig p DoY])"
  using assms
  by (auto simp: cached_def split: sum.splits option.splits py_error.splits)

lemma open_read_miss_written:
  assumes "open_read fs p = Inl FileNotFoundError"
      and "update_cache L fs fig p DoY = Inr fs'"
      and "p = path_join PLOT_CACHE_DIR name" and "str_in (''d'' @ str_int DoY) name"
  shows "open_read fs' p = Inr (json_dumps L fig)"
proof -
  have dir: "dir_exists fs"
    using assms(2) by (auto simp: update_cache_def write_file_def split: if_splits)
  then have none: "files fs p = None"
    using assms(1) by (auto simp: open_read_def split: option.splits if_splits)
  obtain f where "dir_exists fs'" "files fs' p = Some f" "content f = json_dumps L fig"
      "readable f"
    using update_cache_keeps [OF dir assms(4), of L fig] assms(2) none
    unfolding assms(3) by auto
  then show ?thesis by (simp add: open_read_def)
qed

text \<open>
  C8. For a valid \<open>m\<close> and any \<open>days_back\<close>: when a call of \<open>moving_avg\<close> returns a
  figure and the tasks it queued have run to completion, a second call on the same day of
  the year returns the same figure, having opened the cache file and neither plotted nor
  queued anything. When the first call was a miss, the cache file then holds the
  serialisation of the figure the fresh computation returned. The \<open>json\<close> codec is
  taken to give the figure back from its serialisation.
\<close>

theorem second_call_served_from_cache:
  assumes "m = 90 \<or> m = 365"
      and "tm_yday today' = tm_yday today"
      and "p = MA_cache_path m days_back (tm_yday today)"
      and "result (moving_avg L session fs today m days_back) = Inr fig"
      and "run_tasks L fs (tasks (moving_avg L session fs today m days_back)) = Inr fs'"
      and "json_loads L (json_dumps L fig) = Some fig"
  shows "moving_avg L session' fs' today' m days_back
           = \<lparr>result = Inr fig, tasks = [], calls = [Open_cache p]\<rparr>
       \<and> (tasks (moving_avg L session fs today m days_back) \<noteq> [] \<longrightarrow>
            open_read fs' p = Inr (json_dumps L fig)
          \<and> loads_plot L (plot_moving_avg L session today m days_back) = Inr fig)"
proof -
  let ?DoY = "tm_yday today"
  let ?first = "cached L fs p ?DoY (Plot_moving_avg m days_back)
                  (plot_moving_avg L session today m days_back)"
  have first: "moving_avg L session fs today m days_back = ?first"
    unfolding assms(3) by (rule moving_avg_valid [OF assms(1)])
  have second: "moving_avg L session' fs' today' m days_back
      = cached L fs' p ?DoY (Plot_moving_avg m days_back)
          (plot_moving_avg L session' today' m days_back)"
    unfolding assms(3) using moving_avg_valid [OF assms(1), of L session' fs' today' days_back]
    by (simp add: assms(2))
  have "result ?first = Inr fig" using assms(4) first by simp
  from cached_result_cases [OF this] show ?thesis
  proof (elim disjE exE conjE)
    fix s
    assume hit: "open_read fs p = Inr s" "json_loads L s = Some fig" "tasks ?first = []"
    then have "fs' = fs" using assms(5) first by simp
    then show ?thesis
      using hit first second by (simp add: cached_hit)
  next
    assume miss: "open_read fs p = Inl FileNotFoundError"
      "loads_plot L (plot_moving_avg L session today m days_back) = Inr fig"
      "tasks ?first = [Update_cache fig p ?DoY]"
    then have upd: "update_cache L fs fig p ?DoY = Inr fs'"
      using assms(5) first by (simp split: sum.splits)
    obtain name where "p = path_join PLOT_CACHE_DIR name" "str_in (''d'' @ str_int ?DoY) name"
      using MA_name_tagged [of m days_back ?DoY] assms(3) by auto
    then have "open_read fs' p = Inr (json_dumps L fig)"
      using open_read_miss_written [OF miss(1) upd] by simp
    then show ?thesis
      using miss first second assms(6) by (simp add: cached_hit)
  qed
qed

theorem second_call_served_from_cache_witness:
  "((90::int) = 90 \<or> (90::int) = 365)
   \<and> tm_yday 737724 = tm_yday 737724
   \<and> result (moving_avg sample_libs [member 737544 ''Permanent Exit''] empty_fs 737724 90 1)
       = Inr ''{line: 90-Day Moving Averages}''
   \<and> json_loads sample_libs (json_dumps sample_libs ''{line: 90-Day Moving Averages}'')
       = Some ''{line: 90-Day Moving Averages}''
   \<and> (\<exists>fs'. run_tasks sample_libs empty_fs
                (tasks (moving_avg sample_libs [member 737544 ''Permanent Exit''] empty_fs
                          737724 90 1)) = Inr fs'
          \<and> moving_avg sample_libs [member 737544 ''Permanent Exit''] fs' 737724 90 1
              = \<lparr>result = Inr ''{line: 90-Day Moving Averages}'', tasks = [],
                 calls = [Open_cache (MA_cache_path 90 1 (tm_yday 737724))]\<rparr>
          \<and> open_read fs' (MA_cache_path 90 1 (tm_yday 737724))
              = Inr ''{line: 90-Day Moving Averages}'')"
proof -
  let ?S = "[member 737544 ''Permanent Exit'']"
  let ?fig = "''{line: 90-Day Moving Averages}''"
  have first: "moving_avg sample_libs ?S empty_fs 737724 90 1
      = \<lparr>result = Inr ?fig,
         tasks = [Update_cache ?fig (MA_cache_path 90 1 (tm_yday 737724)) (tm_yday 737724)],
         calls = [Open_cache (MA_cache_path 90 1 (tm_yday 737724)), Plot_moving_avg 90 1,
                  Add_task (MA_cache_path 90 1 (tm_yday 737724))]\<rparr>"
    by (simp add: moving_avg_def check_m_def cached_def open_read_def empty_fs_def
        loads_plot_def sample_libs_def
        plot_moving_avg_def compute_moving_def exit_df_eq to_row_def member_def unique_def
        STEP_def range_py.simps subset_rows_def truediv_def
        date_eval fillna0_def columns_def Let_def
        str_int_def str_nat.simps digit_char_def)
  obtain fs' where run: "run_tasks sample_libs empty_fs
      [Update_cache ?fig (MA_cache_path 90 1 (tm_yday 737724)) (tm_yday 737724)] = Inr fs'"
    by (simp add: update_cache_def write_file_def empty_fs_def)
  have rt: "json_loads sample_libs (json_dumps sample_libs ?fig) = Some ?fig"
    by (simp add: sample_libs_def)
  have dumps: "json_dumps sample_libs ?fig = ?fig"
    by (simp add: sample_libs_def)
  show ?thesis
    using second_call_served_from_cache [of 90 737724 737724 "MA_cache_path 90 1 (tm_yday 737724)"
        1 sample_libs ?S empty_fs ?fig fs' ?S] first run rt dumps
    by simp
qed

end
